theory Spec2Isabelle
  imports Main
begin

section \<open>Byte streams, errors and sources\<close>

text \<open>
  The package \<open>scan\<close> reads bytes from named sources. A byte slice is a list of
  characters (an Isabelle \<open>char\<close> is one byte). A Go \<open>error\<close> value is an
  \<open>error option\<close>: \<open>None\<close> is \<open>nil\<close>. The package tells apart \<open>io.EOF\<close>, its own
  sentinel \<open>endOfSource\<close>, and every other error, of which only the text matters.
\<close>

type_synonym bytes = string

datatype error = EOF | endOfSource | errorsNew string

text \<open>
  The result of \<open>Read(p)\<close>: the bytes stored in \<open>p\<close> (their number is Go's \<open>n\<close>), the
  error, and the reader after the call.
\<close>

type_synonym 's readResult = "bytes \<times> error option \<times> 's"

text \<open>
  A source supplied by the host (a file, standard input, a \<open>strings.Reader\<close> with a
  name). Its behaviour is a script: each entry is the bytes and the error one \<open>Read\<close>
  hands out; a destination shorter than the entry receives a prefix with a nil error
  and the rest stays for the next call (in particular a destination of length 0
  receives nothing and leaves the source as it was); after the script every \<open>Read\<close>
  returns \<open>(0, io.EOF)\<close>.
\<close>

record hostSource =
  hname :: string
  script :: "(bytes \<times> error option) list"

definition hostRead :: "nat \<Rightarrow> hostSource \<Rightarrow> hostSource readResult" where
  "hostRead k h =
     (case script h of
        [] \<Rightarrow> ([], Some EOF, h)
      | (d, e) # rest \<Rightarrow>
          if length d \<le> k then (d, e, h\<lparr>script := rest\<rparr>)
          else (take k d, None, h\<lparr>script := (drop k d, e) # rest\<rparr>))"

text \<open>\<open>strings.NewReader(s)\<close> under a name: all of \<open>s\<close>, then \<open>io.EOF\<close>.\<close>

definition stringSource :: "string \<Rightarrow> bytes \<Rightarrow> hostSource" where
  "stringSource nm s = \<lparr>hname = nm, script = (if s = [] then [] else [(s, None)])\<rparr>"

fun hsize :: "(bytes \<times> error option) list \<Rightarrow> nat" where
  "hsize [] = 0"
| "hsize ((d, e) # rest) = Suc (length d) + hsize rest"

subsection \<open>multiSource\<close>

text \<open>
  \<open>multiSource.Read\<close>, on the struct's only field \<open>sources\<close>. The loop calls the first
  source again when it returned \<open>(0, nil)\<close>; a source that returns \<open>(0, nil)\<close> and is
  left unchanged by the call makes the Go loop spin forever, which is the value
  \<open>None\<close> here.
\<close>

function msRead :: "nat \<Rightarrow> hostSource list \<Rightarrow> (hostSource list) readResult option" where
  "msRead k [] = Some ([], Some EOF, [])"
| "msRead k (s # ss) =
     (case hostRead k s of (d, e, s') \<Rightarrow>
        if e = Some EOF then
          (if ss \<noteq> [] then Some (d, Some endOfSource, ss)
           else Some (d, Some EOF, []))
        else if d \<noteq> [] \<or> e \<noteq> None then Some (d, e, s' # ss)
        else if s' = s then None
        else msRead k (s' # ss))"
  by pat_completeness auto

lemma hostRead_size:
  "hostRead k h = (d, e, h') \<Longrightarrow> hsize (script h') + length d \<le> hsize (script h)"
  by (auto simp: hostRead_def split: list.splits if_splits)

lemma hostRead_progress:
  "hostRead k h = (d, e, h') \<Longrightarrow> h' \<noteq> h \<Longrightarrow> hsize (script h') < hsize (script h)"
  by (cases "k = 0") (auto simp: hostRead_def split: list.splits if_splits)

termination msRead
  apply (relation "measure (\<lambda>(k, ss). case ss of [] \<Rightarrow> 0 | s # _ \<Rightarrow> hsize (script s))")
   apply simp
  apply (auto dest: hostRead_progress [OF sym])
  done

text \<open>\<open>multiSource.Name\<close>.\<close>

definition msName :: "hostSource list \<Rightarrow> string" where
  "msName ss = (case ss of [] \<Rightarrow> [] | s # _ \<Rightarrow> hname s)"

subsection \<open>The interface Source\<close>

text \<open>
  The implementations of \<open>Source\<close> a reader of this package is built on: a host source,
  or the \<open>multiSource\<close> over host sources that \<open>MultiSource(sources...)\<close> returns.
  A result \<open>None\<close> of a read means that the call does not return.
\<close>

datatype Source = Host hostSource | Multi "hostSource list"

definition srcRead :: "nat \<Rightarrow> Source \<Rightarrow> Source readResult option" where
  "srcRead k src =
     (case src of
        Host h \<Rightarrow> (case hostRead k h of (d, e, h') \<Rightarrow> Some (d, e, Host h'))
      | Multi ss \<Rightarrow>
          (case msRead k ss of
             None \<Rightarrow> None
           | Some (d, e, ss') \<Rightarrow> Some (d, e, Multi ss')))"

definition srcName :: "Source \<Rightarrow> string" where
  "srcName src = (case src of Host h \<Rightarrow> hname h | Multi ss \<Rightarrow> msName ss)"

text \<open>What is left to read of a source: the measure the loops below go down on.\<close>

definition msize :: "hostSource list \<Rightarrow> nat" where
  "msize ss = sum_list (map (\<lambda>s. Suc (hsize (script s))) ss)"

definition ssize :: "Source \<Rightarrow> nat" where
  "ssize src = (case src of Host h \<Rightarrow> hsize (script h) | Multi ss \<Rightarrow> msize ss)"

lemma hostRead_progress_nil:
  "hostRead k h = (d, None, h') \<Longrightarrow> 0 < k \<or> d \<noteq> [] \<Longrightarrow>
   hsize (script h') < hsize (script h)"
  by (auto simp: hostRead_def split: list.splits if_splits)

lemma msRead_size:
  "msRead k ss = Some (d, e, ss') \<Longrightarrow> msize ss' + length d \<le> msize ss"
proof (induction k ss rule: msRead.induct)
  case (1 k)
  then show ?case by (simp add: msize_def)
next
  case (2 k s ss)
  obtain d0 e0 s0 where hr: "hostRead k s = (d0, e0, s0)"
    by (cases "hostRead k s") auto
  have le: "hsize (script s0) + length d0 \<le> hsize (script s)"
    using hr by (rule hostRead_size)
  show ?case
  proof (cases "e0 = Some EOF \<or> d0 \<noteq> [] \<or> e0 \<noteq> None")
    case True
    then show ?thesis
      using "2.prems" hr le by (auto simp: msize_def split: if_splits)
  next
    case False
    then have rec: "s0 \<noteq> s" "msRead k (s0 # ss) = Some (d, e, ss')"
      using "2.prems" hr by (auto split: if_splits)
    have "msize ss' + length d \<le> msize (s0 # ss)"
      using "2.IH" [of d0 "(e0, s0)" e0 s0] hr False rec by simp
    then show ?thesis using le by (simp add: msize_def)
  qed
qed

lemma msRead_progress:
  "msRead k ss = Some (d, None, ss') \<Longrightarrow> msize ss' < msize ss"
proof (induction k ss rule: msRead.induct)
  case (1 k)
  then show ?case by simp
next
  case (2 k s ss)
  obtain d0 e0 s0 where hr: "hostRead k s = (d0, e0, s0)"
    by (cases "hostRead k s") auto
  have le: "hsize (script s0) + length d0 \<le> hsize (script s)"
    using hr by (rule hostRead_size)
  have pos: "d0 = [] \<or> hsize (script s0) < hsize (script s)"
    using le by (cases d0) auto
  show ?case
  proof (cases "e0 = Some EOF \<or> d0 \<noteq> [] \<or> e0 \<noteq> None")
    case True
    then show ?thesis
      using "2.prems" hr le pos by (auto simp: msize_def split: if_splits)
  next
    case False
    then have rec: "s0 \<noteq> s" "msRead k (s0 # ss) = Some (d, None, ss')"
      using "2.prems" hr by (auto split: if_splits)
    have "msize ss' < msize (s0 # ss)"
      using "2.IH" [of d0 "(e0, s0)" e0 s0] hr False rec by simp
    then show ?thesis using le by (simp add: msize_def)
  qed
qed

lemma srcRead_size:
  "srcRead k src = Some (d, e, src') \<Longrightarrow> ssize src' + length d \<le> ssize src"
  by (cases src)
     (auto simp: srcRead_def ssize_def split: prod.splits option.splits
           dest: hostRead_size msRead_size)

lemma srcRead_progress:
  "srcRead k src = Some (d, None, src') \<Longrightarrow> 0 < k \<or> d \<noteq> [] \<Longrightarrow> ssize src' < ssize src"
  by (cases src)
     (auto simp: srcRead_def ssize_def split: prod.splits option.splits
           dest: hostRead_progress_nil msRead_progress)

section \<open>Readers of the standard library\<close>

subsection \<open>bufio.Reader\<close>

text \<open>
  \<open>bufio.NewReader(rd)\<close> with its default buffer of 4096 bytes. \<open>pending\<close> is the unread
  part \<open>b.buf[b.r:b.w]\<close> of the buffer and \<open>berr\<close> the stored error \<open>b.err\<close>, which
  \<open>readErr\<close> hands out once and clears.
\<close>

record bufioReader =
  rd :: Source
  pending :: bytes
  berr :: "error option"

definition defaultBufSize :: nat where
  "defaultBufSize = 4096"

definition NewReader :: "Source \<Rightarrow> bufioReader" where
  "NewReader src = \<lparr>rd = src, pending = [], berr = None\<rparr>"

text \<open>
  \<open>(*bufio.Reader).Read\<close>: an empty buffer is refilled by one read of the underlying
  source (straight into \<open>p\<close> when \<open>p\<close> is at least as large as the buffer), and the
  call returns what one copy into \<open>p\<close> takes.
\<close>

definition brRead :: "nat \<Rightarrow> bufioReader \<Rightarrow> bufioReader readResult option" where
  "brRead k b =
     (if k = 0 then
        (if pending b = [] then Some ([], berr b, b\<lparr>berr := None\<rparr>)
         else Some ([], None, b))
      else if pending b = [] then
        (if berr b = None then
           (if defaultBufSize \<le> k then
              (case srcRead k (rd b) of
                 None \<Rightarrow> None
               | Some (d, e, r') \<Rightarrow> Some (d, e, b\<lparr>rd := r'\<rparr>))
            else
              (case srcRead defaultBufSize (rd b) of
                 None \<Rightarrow> None
               | Some (d, e, r') \<Rightarrow>
                   if d = [] then Some ([], e, b\<lparr>rd := r'\<rparr>)
                   else Some (take k d, None,
                              b\<lparr>rd := r', pending := drop k d, berr := e\<rparr>)))
         else Some ([], berr b, b\<lparr>berr := None\<rparr>))
      else Some (take k (pending b), None, b\<lparr>pending := drop k (pending b)\<rparr>))"

text \<open>
  \<open>fill\<close> reads into the free part of the buffer, at most
  \<open>maxConsecutiveEmptyReads\<close> times while a read brings nothing and no error, and then
  stores \<open>io.ErrNoProgress\<close>. \<open>ReadBytes\<close> sets a full buffer aside as a fragment and
  goes on with an empty one, so with \<open>pending\<close> standing for the fragments and the
  buffer together the free part has \<open>4096 - length pending mod 4096\<close> bytes.
\<close>

definition ErrNoProgress :: error where
  "ErrNoProgress = errorsNew ''multiple Read calls return no data or error''"

definition maxConsecutiveEmptyReads :: nat where
  "maxConsecutiveEmptyReads = 100"

fun fillLoop :: "nat \<Rightarrow> bufioReader \<Rightarrow> bufioReader option" where
  "fillLoop 0 b = Some (b\<lparr>berr := Some ErrNoProgress\<rparr>)"
| "fillLoop (Suc i) b =
     (case srcRead (defaultBufSize - length (pending b) mod defaultBufSize) (rd b) of
        None \<Rightarrow> None
      | Some (d, e, r') \<Rightarrow>
          if e = None then
            (if d = [] then fillLoop i (b\<lparr>rd := r'\<rparr>)
             else Some (b\<lparr>rd := r', pending := pending b @ d\<rparr>))
          else Some (b\<lparr>rd := r', pending := pending b @ d, berr := e\<rparr>))"

definition fill :: "bufioReader \<Rightarrow> bufioReader option" where
  "fill b = fillLoop maxConsecutiveEmptyReads b"

lemma fillLoop_progress:
  "fillLoop i b = Some b' \<Longrightarrow> berr b = None \<Longrightarrow>
   (berr b' = None \<longrightarrow> ssize (rd b') < ssize (rd b)) \<and> ssize (rd b') \<le> ssize (rd b)"
proof (induction i arbitrary: b)
  case 0
  then show ?case by auto
next
  case (Suc i)
  obtain d e r' where sr:
    "srcRead (defaultBufSize - length (pending b) mod defaultBufSize) (rd b) = Some (d, e, r')"
    using Suc.prems by (auto split: option.splits)
  have le: "ssize r' + length d \<le> ssize (rd b)"
    using sr by (rule srcRead_size)
  show ?case
  proof (cases "e = None")
    case False
    then show ?thesis using Suc.prems sr le by auto
  next
    case True
    show ?thesis
    proof (cases "d = []")
      case False
      have "ssize r' < ssize (rd b)"
        using le False by (cases d) auto
      then show ?thesis using Suc.prems sr True False by auto
    next
      case dnil: True
      have "fillLoop i (b\<lparr>rd := r'\<rparr>) = Some b'"
        using Suc.prems sr True dnil by simp
      then have "(berr b' = None \<longrightarrow> ssize (rd b') < ssize (rd (b\<lparr>rd := r'\<rparr>)))
          \<and> ssize (rd b') \<le> ssize (rd (b\<lparr>rd := r'\<rparr>))"
        using Suc.prems(2) by (intro Suc.IH) simp_all
      then show ?thesis using le by auto
    qed
  qed
qed

text \<open>
  \<open>(*bufio.Reader).ReadBytes(delim)\<close>: the bytes up to and including the first \<open>delim\<close>;
  when a read error comes first, the bytes read before it, and the error.
\<close>

function brReadBytes :: "char \<Rightarrow> bufioReader \<Rightarrow> bufioReader readResult option" where
  "brReadBytes delim b =
     (if delim \<in> set (pending b) then
        Some (takeWhile (\<lambda>c. c \<noteq> delim) (pending b) @ [delim], None,
              b\<lparr>pending := tl (dropWhile (\<lambda>c. c \<noteq> delim) (pending b))\<rparr>)
      else if berr b = None then
        (case fill b of
           None \<Rightarrow> None
         | Some b' \<Rightarrow> brReadBytes delim b')
      else Some (pending b, berr b, b\<lparr>pending := [], berr := None\<rparr>))"
  by pat_completeness auto

termination brReadBytes
  apply (relation "measure (\<lambda>(delim, b). if berr b = None then Suc (ssize (rd b)) else 0)")
   apply simp
  apply (auto simp: fill_def dest: fillLoop_progress)
  done

subsection \<open>simpleLineReader\<close>

text \<open>
  The fields \<open>src\<close> and \<open>br\<close> of the Go struct share one source: \<open>br\<close> was made by
  \<open>bufio.NewReader(src)\<close>, so \<open>sr.src\<close> is \<open>rd (sr_br sr)\<close> here.
\<close>

record simpleLineReader =
  sr_name :: string
  sr_br :: bufioReader

definition newSimpleLineReader :: "Source \<Rightarrow> simpleLineReader" where
  "newSimpleLineReader src = \<lparr>sr_name = srcName src, sr_br = NewReader src\<rparr>"

definition srRead :: "nat \<Rightarrow> simpleLineReader \<Rightarrow> simpleLineReader readResult option" where
  "srRead k sr =
     (case brRead k (sr_br sr) of
        None \<Rightarrow> None
      | Some (d, e, b') \<Rightarrow>
          if e = Some endOfSource
          then Some (d, e, sr\<lparr>sr_br := b', sr_name := srcName (rd b')\<rparr>)
          else Some (d, e, sr\<lparr>sr_br := b'\<rparr>))"

definition srName :: "simpleLineReader \<Rightarrow> string" where
  "srName sr = sr_name sr"

definition srReadLine :: "simpleLineReader \<Rightarrow> simpleLineReader readResult option" where
  "srReadLine sr =
     (case brReadBytes (CHR 0x0A) (sr_br sr) of
        None \<Rightarrow> None
      | Some (line, e, b') \<Rightarrow>
          Some ((if 0 < length line then take (length line - 1) line else line), e,
                sr\<lparr>sr_br := b'\<rparr>))"

subsection \<open>regexp.Regexp\<close>

text \<open>
  A compiled regular expression is taken by what the package asks of it: its source
  text \<open>expr\<close>, \<open>FindIndex\<close> (the leftmost match in a byte slice, as a pair of offsets),
  and \<open>FindAllIndex\<close> (the successive non-overlapping matches that \<open>Split\<close> walks
  over, in order, with \<open>n = -1\<close>).
\<close>

record regexp =
  expr :: string
  FindIndex :: "bytes \<Rightarrow> (nat \<times> nat) option"
  FindAllIndex :: "bytes \<Rightarrow> (nat \<times> nat) list"

text \<open>
  \<open>(*Regexp).Split(s, -1)\<close> of the standard library: the pieces of \<open>s\<close> between the
  matches. \<open>s[beg:end]\<close> is \<open>take (end - beg) (drop beg s)\<close>.
\<close>

definition splitStep :: "string \<Rightarrow> string list \<times> nat \<times> nat \<Rightarrow> nat \<times> nat \<Rightarrow> string list \<times> nat \<times> nat" where
  "splitStep s st m =
     (case st of (strs, beg, end0) \<Rightarrow>
        (if snd m = 0 then strs else strs @ [take (fst m - beg) (drop beg s)], snd m, fst m))"

definition Split :: "regexp \<Rightarrow> string \<Rightarrow> string list" where
  "Split re s =
     (if 0 < length (expr re) \<and> length s = 0 then [[]]
      else (case foldl (splitStep s) ([], 0, 0) (FindAllIndex re s) of
              (strs, beg, end0) \<Rightarrow>
                if end0 = length s then strs else strs @ [drop beg s]))"

text \<open>
  The regexp compiled from a pattern that is a non-empty string without
  metacharacters: it matches the occurrences of the pattern itself.
\<close>

fun indexFrom :: "bytes \<Rightarrow> bytes \<Rightarrow> nat \<Rightarrow> nat option" where
  "indexFrom pat [] i = (if pat = [] then Some i else None)"
| "indexFrom pat (c # cs) i =
     (if take (length pat) (c # cs) = pat then Some i else indexFrom pat cs (Suc i))"

fun allFrom :: "bytes \<Rightarrow> bytes \<Rightarrow> nat \<Rightarrow> (nat \<times> nat) list" where
  "allFrom pat [] i = []"
| "allFrom pat (c # cs) i =
     (if take (length pat) (c # cs) = pat
      then (i, i + length pat) # allFrom pat (drop (length pat - 1) cs) (i + length pat)
      else allFrom pat cs (Suc i))"

definition literalRx :: "string \<Rightarrow> regexp" where
  "literalRx pat =
     \<lparr>expr = pat,
      FindIndex = (\<lambda>b. case indexFrom pat b 0 of
                          None \<Rightarrow> None
                        | Some i \<Rightarrow> Some (i, i + length pat)),
      FindAllIndex = (\<lambda>b. allFrom pat b 0)\<rparr>"

text \<open>
  \<open>strings.Fields\<close> on a record of ASCII bytes: the maximal runs of bytes that are not
  white space (\<open>'\t'\<close>, \<open>'\n'\<close>, \<open>'\v'\<close>, \<open>'\f'\<close>, \<open>'\r'\<close>, \<open>' '\<close>). On a record with
  bytes above 127 the library also splits at UTF-8 encoded Unicode white space, which
  this definition does not; it is used on ASCII records only.
\<close>

definition asciiSpace :: "char \<Rightarrow> bool" where
  "asciiSpace c = (c \<in> {CHR 0x09, CHR 0x0A, CHR 0x0B, CHR 0x0C, CHR 0x0D, CHR 0x20})"

fun fieldsFrom :: "string \<Rightarrow> string \<Rightarrow> string list" where
  "fieldsFrom cur [] = (if cur = [] then [] else [cur])"
| "fieldsFrom cur (c # cs) =
     (if asciiSpace c then (if cur = [] then fieldsFrom [] cs else cur # fieldsFrom [] cs)
      else fieldsFrom (cur @ [c]) cs)"

definition Fields :: "string \<Rightarrow> string list" where
  "Fields s = fieldsFrom [] s"

section \<open>rxLineReader\<close>

text \<open>
  The struct without its array \<open>buf\<close>: \<open>rr_ptr\<close> holds the bytes the slice \<open>ptr\<close> points
  to. \<open>buf\<close> is written only by \<open>loadBufN\<close>, which \<open>ReadLine\<close> calls only when \<open>ptr\<close> is
  empty, so no byte \<open>ptr\<close> points to is overwritten.
\<close>

record rxLineReader =
  rr_ptr :: bytes
  rr_src :: Source
  rr_name :: string
  rr_rx :: regexp
  rr_stat :: nat

definition bufSize :: nat where
  "bufSize = 4096"

definition sourceEnd :: nat where
  "sourceEnd = 1"

definition finished :: nat where
  "finished = 2"

definition newRxLineReader :: "Source \<Rightarrow> regexp \<Rightarrow> rxLineReader" where
  "newRxLineReader src sepRx =
     \<lparr>rr_ptr = [], rr_src = src, rr_name = srcName src, rr_rx = sepRx, rr_stat = 0\<rparr>"

definition rrRead :: "nat \<Rightarrow> rxLineReader \<Rightarrow> rxLineReader readResult option" where
  "rrRead k rr =
     (if 0 < length (rr_ptr rr) then
        Some (take k (rr_ptr rr), None, rr\<lparr>rr_ptr := drop k (rr_ptr rr)\<rparr>)
      else (case srcRead k (rr_src rr) of
              None \<Rightarrow> None
            | Some (d, e, s') \<Rightarrow> Some (d, e, rr\<lparr>rr_src := s'\<rparr>)))"

definition rrName :: "rxLineReader \<Rightarrow> string" where
  "rrName rr = (if 0 < length (rr_ptr rr) then rr_name rr else srcName (rr_src rr))"

text \<open>
  \<open>loadBufN(n)\<close> returns its error and the reader; \<open>None\<close> when the call does not return
  (the read spins forever, or \<open>rr.buf[:n]\<close> panics because \<open>n\<close> exceeds the array).
\<close>

definition loadBufN :: "nat \<Rightarrow> rxLineReader \<Rightarrow> (error option \<times> rxLineReader) option" where
  "loadBufN n rr =
     (if sourceEnd \<le> rr_stat rr then Some (None, rr)
      else if bufSize < n then None
      else (case srcRead n (rr_src rr) of
              None \<Rightarrow> None
            | Some (d, e, s') \<Rightarrow>
                (case e of
                   Some EOF \<Rightarrow> Some (None, rr\<lparr>rr_src := s', rr_ptr := d, rr_stat := finished\<rparr>)
                 | Some endOfSource \<Rightarrow>
                     Some (None, rr\<lparr>rr_src := s', rr_ptr := d, rr_name := srcName s',
                                     rr_stat := sourceEnd\<rparr>)
                 | Some (errorsNew t) \<Rightarrow>
                     Some (Some (errorsNew t), rr\<lparr>rr_src := s', rr_ptr := d\<rparr>)
                 | None \<Rightarrow>
                     if length d = 0
                     then Some (Some (errorsNew ''scan: empty read''),
                                rr\<lparr>rr_src := s', rr_ptr := d\<rparr>)
                     else Some (None, rr\<lparr>rr_src := s', rr_ptr := d\<rparr>))))"

text \<open>
  The block of \<open>ReadLine\<close> under \<open>if len(rr.ptr) == 0\<close>, entered with the line and the
  match of the iteration before: it returns (\<open>Inr\<close>) or falls through to the rest of
  the loop body with the reloaded reader (\<open>Inl\<close>).
\<close>

definition rrFlush :: "rxLineReader \<Rightarrow> bytes \<Rightarrow> (nat \<times> nat) option \<Rightarrow> rxLineReader readResult" where
  "rrFlush rr line loc =
     (let line1 = (case loc of
                     None \<Rightarrow> line
                   | Some l \<Rightarrow> if 0 < length line then take (fst l) line else line)
      in if finished \<le> rr_stat rr then
           (if 0 < length line1 then (line1, None, rr) else (line1, Some EOF, rr))
         else (line1, None, rr\<lparr>rr_stat := 0\<rparr>))"

definition rrReload :: "nat \<Rightarrow> rxLineReader \<Rightarrow> bytes \<Rightarrow> (nat \<times> nat) option
    \<Rightarrow> rxLineReader + rxLineReader readResult option" where
  "rrReload n rr line loc =
     (case loadBufN n rr of
        None \<Rightarrow> Inr None
      | Some (Some e, rr1) \<Rightarrow> Inr (Some ([], Some e, rr1))
      | Some (None, rr1) \<Rightarrow>
          if sourceEnd \<le> rr_stat rr1 \<and> length (rr_ptr rr1) = 0
          then Inr (Some (rrFlush rr1 line loc))
          else Inl rr1)"

definition rrsize :: "rxLineReader \<Rightarrow> nat" where
  "rrsize rr =
     (if rr_ptr rr = [] then 0 else 1)
     + 2 * (if rr_stat rr < sourceEnd then Suc (ssize (rr_src rr)) else 0)"

lemma loadBufN_progress:
  "loadBufN n rr = Some (None, rr1) \<Longrightarrow> rr_ptr rr = [] \<Longrightarrow>
   \<not> (sourceEnd \<le> rr_stat rr1 \<and> rr_ptr rr1 = []) \<Longrightarrow>
   rrsize (rr1\<lparr>rr_ptr := []\<rparr>) < rrsize rr"
proof -
  assume lb: "loadBufN n rr = Some (None, rr1)" and p: "rr_ptr rr = []"
    and nf: "\<not> (sourceEnd \<le> rr_stat rr1 \<and> rr_ptr rr1 = [])"
  have st: "rr_stat rr < sourceEnd"
    using lb p nf by (cases "sourceEnd \<le> rr_stat rr") (auto simp: loadBufN_def)
  then obtain d e s' where sr: "srcRead n (rr_src rr) = Some (d, e, s')"
    using lb by (auto simp: loadBufN_def split: option.splits if_splits)
  show ?thesis
  proof (cases e)
    case None
    then have d: "d \<noteq> []" and r: "rr1 = rr\<lparr>rr_src := s', rr_ptr := d\<rparr>"
      using lb st sr by (auto simp: loadBufN_def split: if_splits)
    have "ssize s' < ssize (rr_src rr)"
      using sr None d by (auto dest: srcRead_progress)
    then show ?thesis using r st by (simp add: rrsize_def)
  next
    case (Some x)
    then have "sourceEnd \<le> rr_stat rr1"
      using lb st sr
      by (cases x) (auto simp: loadBufN_def sourceEnd_def finished_def split: if_splits)
    then show ?thesis using st by (simp add: rrsize_def)
  qed
qed

lemma rrReload_progress:
  "(if length (rr_ptr rr) = 0 then rrReload n rr line loc else Inl rr) = Inl rr1 \<Longrightarrow>
   rrsize (rr1\<lparr>rr_ptr := []\<rparr>) < rrsize rr"
proof (cases "rr_ptr rr = []")
  case False
  assume "(if length (rr_ptr rr) = 0 then rrReload n rr line loc else Inl rr) = Inl rr1"
  then have "rr1 = rr" using False by simp
  then show ?thesis using False by (simp add: rrsize_def)
next
  case True
  assume "(if length (rr_ptr rr) = 0 then rrReload n rr line loc else Inl rr) = Inl rr1"
  then have rl: "rrReload n rr line loc = Inl rr1" using True by simp
  then have lb: "loadBufN n rr = Some (None, rr1)"
    by (auto simp: rrReload_def split: option.splits prod.splits if_splits)
  have nf: "\<not> (sourceEnd \<le> rr_stat rr1 \<and> rr_ptr rr1 = [])"
    using rl lb by (auto simp: rrReload_def)
  show ?thesis using lb True nf by (rule loadBufN_progress)
qed

text \<open>
  The loop of \<open>ReadLine\<close>, with the buffer size \<open>_bufSize\<close> of the package as \<open>n\<close>, the
  line accumulated so far and the match \<open>loc\<close> of the iteration before.
\<close>

function rrLoop :: "nat \<Rightarrow> rxLineReader \<Rightarrow> bytes \<Rightarrow> (nat \<times> nat) option
    \<Rightarrow> rxLineReader readResult option" where
  "rrLoop n rr line loc =
     (case (if length (rr_ptr rr) = 0 then rrReload n rr line loc else Inl rr) of
        Inr r \<Rightarrow> r
      | Inl rr1 \<Rightarrow>
          (case FindIndex (rr_rx rr1) (line @ rr_ptr rr1) of
             None \<Rightarrow> rrLoop n (rr1\<lparr>rr_ptr := []\<rparr>) (line @ rr_ptr rr1) None
           | Some l \<Rightarrow>
               if snd l = length (line @ rr_ptr rr1)
               then rrLoop n (rr1\<lparr>rr_ptr := []\<rparr>) (line @ rr_ptr rr1) (Some l)
               else Some (take (fst l) (line @ rr_ptr rr1), None,
                          rr1\<lparr>rr_ptr := drop (snd l) (line @ rr_ptr rr1)\<rparr>)))"
  by pat_completeness auto

termination rrLoop
  apply (relation "measure (\<lambda>(n, rr, line, loc). rrsize rr)")
    apply simp
   apply (simp add: rrReload_progress)
  apply (simp add: rrReload_progress)
  done

definition rrReadLine :: "nat \<Rightarrow> rxLineReader \<Rightarrow> rxLineReader readResult option" where
  "rrReadLine n rr = rrLoop n rr [] None"

section \<open>The Scanner\<close>

subsection \<open>lineReader and ioutil.ReadAll\<close>

datatype lineReader = Simple simpleLineReader | Rx rxLineReader

definition lrRead :: "nat \<Rightarrow> lineReader \<Rightarrow> lineReader readResult option" where
  "lrRead k r =
     (case r of
        Simple sr \<Rightarrow>
          (case srRead k sr of
             None \<Rightarrow> None
           | Some (d, e, sr') \<Rightarrow> Some (d, e, Simple sr'))
      | Rx rr \<Rightarrow>
          (case rrRead k rr of
             None \<Rightarrow> None
           | Some (d, e, rr') \<Rightarrow> Some (d, e, Rx rr')))"

definition lrName :: "lineReader \<Rightarrow> string" where
  "lrName r = (case r of Simple sr \<Rightarrow> srName sr | Rx rr \<Rightarrow> rrName rr)"

definition bsize :: "bufioReader \<Rightarrow> nat" where
  "bsize b = 2 * ssize (rd b) + length (pending b) + (if berr b = None then 0 else 1)"

definition lrsize :: "lineReader \<Rightarrow> nat" where
  "lrsize r =
     (case r of
        Simple sr \<Rightarrow> bsize (sr_br sr)
      | Rx rr \<Rightarrow> 2 * ssize (rr_src rr) + length (rr_ptr rr))"

lemma brRead_progress:
  assumes "brRead k b = Some (d, None, b')" and "0 < k"
  shows "bsize b' < bsize b"
proof (cases "pending b = []")
  case False
  then show ?thesis using assms by (auto simp: brRead_def bsize_def)
next
  case True
  note pe = True
  show ?thesis
  proof (cases "berr b = None")
    case False
    then show ?thesis using assms pe by (auto simp: brRead_def)
  next
    case True
    note be = True
    show ?thesis
    proof (cases "defaultBufSize \<le> k")
      case True
      then obtain r' where "srcRead k (rd b) = Some (d, None, r')" "b' = b\<lparr>rd := r'\<rparr>"
        using assms pe be by (auto simp: brRead_def split: option.splits)
      then show ?thesis
        using assms(2) pe be by (auto simp: bsize_def dest: srcRead_progress)
    next
      case False
      then obtain d0 e0 r' where sr: "srcRead defaultBufSize (rd b) = Some (d0, e0, r')"
        using assms pe be by (auto simp: brRead_def split: option.splits)
      have le: "ssize r' + length d0 \<le> ssize (rd b)"
        using sr by (rule srcRead_size)
      show ?thesis
      proof (cases "d0 = []")
        case True
        then have "e0 = None" "b' = b\<lparr>rd := r'\<rparr>"
          using assms pe be False sr by (auto simp: brRead_def)
        moreover have "ssize r' < ssize (rd b)"
          using sr \<open>e0 = None\<close> by (auto simp: defaultBufSize_def dest: srcRead_progress)
        ultimately show ?thesis using pe be by (simp add: bsize_def)
      next
        case dne: False
        then have b': "b' = b\<lparr>rd := r', pending := drop k d0, berr := e0\<rparr>"
          using assms pe be False sr by (auto simp: brRead_def)
        obtain c cs where "d0 = c # cs" using dne by (cases d0) auto
        then show ?thesis
          using b' le assms(2) pe be by (auto simp: bsize_def)
      qed
    qed
  qed
qed

lemma lrRead_progress:
  assumes "lrRead k r = Some (d, None, r')" and "0 < k"
  shows "lrsize r' < lrsize r"
proof (cases r)
  case (Simple sr)
  then obtain b' where "brRead k (sr_br sr) = Some (d, None, b')" "r' = Simple (sr\<lparr>sr_br := b'\<rparr>)"
    using assms(1)
    by (auto simp: lrRead_def srRead_def split: option.splits if_splits)
  then show ?thesis
    using Simple assms(2) by (auto simp: lrsize_def dest: brRead_progress)
next
  case (Rx rr)
  show ?thesis
  proof (cases "rr_ptr rr = []")
    case True
    then obtain s' where "srcRead k (rr_src rr) = Some (d, None, s')" "r' = Rx (rr\<lparr>rr_src := s'\<rparr>)"
      using assms(1) Rx by (auto simp: lrRead_def rrRead_def split: option.splits)
    then show ?thesis
      using Rx True assms(2) by (auto simp: lrsize_def dest: srcRead_progress)
  next
    case False
    then have "r' = Rx (rr\<lparr>rr_ptr := drop k (rr_ptr rr)\<rparr>)"
      using assms(1) Rx by (auto simp: lrRead_def rrRead_def)
    then show ?thesis using Rx False assms(2) by (auto simp: lrsize_def)
  qed
qed

text \<open>
  \<open>ioutil.ReadAll\<close> reads until an error: \<open>io.EOF\<close> ends it with a nil error, any other
  error is returned with the bytes read so far. Every \<open>Read\<close> is offered at least
  \<open>bytes.MinRead\<close> bytes of room; the model offers exactly that many.
\<close>

definition MinRead :: nat where
  "MinRead = 512"

function readAllLoop :: "bytes \<Rightarrow> lineReader \<Rightarrow> lineReader readResult option" where
  "readAllLoop acc r =
     (case lrRead MinRead r of
        None \<Rightarrow> None
      | Some (d, e, r') \<Rightarrow>
          (case e of
             None \<Rightarrow> readAllLoop (acc @ d) r'
           | Some x \<Rightarrow>
               if x = EOF then Some (acc @ d, None, r') else Some (acc @ d, Some x, r')))"
  by pat_completeness auto

termination readAllLoop
  apply (relation "measure (\<lambda>(acc, r). lrsize r)")
   apply simp
  apply (auto simp: MinRead_def intro: lrRead_progress)
  done

definition ReadAll :: "lineReader \<Rightarrow> lineReader readResult option" where
  "ReadAll r = readAllLoop [] r"

subsection \<open>Scanner\<close>

text \<open>
  A nil \<open>lr\<close>, \<open>rowsRx\<close>, \<open>fieldsRx\<close> or \<open>err\<close> is \<open>None\<close>. The counters are Go \<open>int\<close>s;
  they only count records up from 0 and are unbounded here (a Go \<open>int\<close> would wrap
  after \<open>2^63\<close> records). The field \<open>fields\<close> is \<open>fields'\<close> here.
  \<open>SetRowSep\<close> and \<open>SetFieldSep\<close>, which compile a pattern with \<open>regexp.Compile\<close>, are
  not part of this development: a scanner with a separator is the record with
  \<open>rowsRx\<close> or \<open>fieldsRx\<close> set, and a reader is always installed by \<open>SetSource\<close>.
\<close>

record Scanner =
  lr :: "lineReader option"
  rowsRx :: "regexp option"
  fieldsRx :: "regexp option"
  err :: "error option"
  recNumber :: int
  fileRecNumber :: int
  rec :: string
  fields' :: "string list"

text \<open>The zero value \<open>Scanner{}\<close>, the state of a fresh scanner.\<close>

definition newScanner :: Scanner where
  "newScanner =
     \<lparr>lr = None, rowsRx = None, fieldsRx = None, err = None,
      recNumber = 0, fileRecNumber = 0, rec = [], fields' = []\<rparr>"

definition SetSource :: "Source \<Rightarrow> Scanner \<Rightarrow> Scanner" where
  "SetSource src sc =
     (case rowsRx sc of
        Some rs \<Rightarrow> sc\<lparr>lr := Some (Rx (newRxLineReader src rs)), recNumber := 0\<rparr>
      | None \<Rightarrow> sc\<lparr>lr := Some (Simple (newSimpleLineReader src)), recNumber := 0\<rparr>)"

definition splitRecord :: "bytes \<Rightarrow> Scanner \<Rightarrow> Scanner" where
  "splitRecord r sc =
     (case fieldsRx sc of
        Some fs \<Rightarrow>
          (let f0 = Split fs r;
               f1 = (if 0 < length f0 \<and> hd f0 = [] then tl f0 else f0);
               f2 = (if 0 < length f1 \<and> last f1 = [] then butlast f1 else f1)
           in sc\<lparr>rec := r, fields' := f2\<rparr>)
      | None \<Rightarrow> sc\<lparr>rec := r, fields' := Fields r\<rparr>)"

text \<open>
  \<open>Scan\<close> returns its boolean and the scanner after the call; \<open>None\<close> when the call does
  not return.
\<close>

definition Scan :: "Scanner \<Rightarrow> (bool \<times> Scanner) option" where
  "Scan sc =
     (case err sc of
        Some e \<Rightarrow> Some (False, sc)
      | None \<Rightarrow>
          (case lr sc of
             None \<Rightarrow> Some (False, sc\<lparr>err := Some (errorsNew ''scan: nil reader'')\<rparr>)
           | Some r \<Rightarrow>
               (case ReadAll r of
                  None \<Rightarrow> None
                | Some (data, e, r') \<Rightarrow>
                    (let fail = (length data = 0 \<or> (e \<noteq> None \<and> e \<noteq> Some EOF));
                         sc1 = sc\<lparr>lr := Some r'\<rparr>
                     in if fail then Some (False, sc1)
                        else Some (True,
                               (splitRecord data sc1)
                                 \<lparr>recNumber := recNumber sc1 + 1,
                                  fileRecNumber := fileRecNumber sc1 + 1\<rparr>)))))"

definition Err :: "Scanner \<Rightarrow> error option" where
  "Err sc = err sc"

text \<open>A call either returns a value or panics with a message.\<close>

datatype 'a outcome = Returns 'a | Panics string

definition Field :: "Scanner \<Rightarrow> int \<Rightarrow> string outcome" where
  "Field sc i =
     (case err sc of
        Some e \<Rightarrow> Returns []
      | None \<Rightarrow>
          if i < 0 then Panics ''negative field index''
          else if i = 0 then Returns (rec sc)
          else if i \<le> int (length (fields' sc)) then Returns (fields' sc ! nat (i - 1))
          else Returns [])"

definition RecordNumber :: "Scanner \<Rightarrow> int" where
  "RecordNumber sc = recNumber sc"

definition FieldCount :: "Scanner \<Rightarrow> int" where
  "FieldCount sc = int (length (fields' sc))"

definition Filename :: "Scanner \<Rightarrow> string" where
  "Filename sc = (case lr sc of None \<Rightarrow> [] | Some r \<Rightarrow> lrName r)"

definition FileRecordNumber :: "Scanner \<Rightarrow> int" where
  "FileRecordNumber sc = fileRecNumber sc"







section \<open>Properties\<close>

declare rrLoop.simps [simp del]
declare readAllLoop.simps [simp del]
declare brReadBytes.simps [simp del]

subsection \<open>Scan\<close>

text \<open>
  C1. Scan is documented to scan one record per call. On the input
  \<open>"a b c\nd  e\n"\<close> with no RS and no FS the claim expects two records, \<open>"a b c"\<close> and
  \<open>"d  e"\<close>. The code reads the whole input with \<open>ioutil.ReadAll\<close>: the first \<open>Scan\<close>
  returns true with the record \<open>"a b c\nd  e\n"\<close>, the five fields of both lines, and
  both counters at 1; the second \<open>Scan\<close> already returns false, with \<open>Err()\<close> nil.
\<close>

theorem C1_Scan_takes_whole_input:
  "(case Scan (SetSource (Host (stringSource ''in'' ''a b c\<newline>d  e\<newline>'')) newScanner) of
      None \<Rightarrow> False
    | Some (ok1, sc1) \<Rightarrow>
        ok1 \<and> rec sc1 = ''a b c\<newline>d  e\<newline>''
        \<and> fields' sc1 = [''a'', ''b'', ''c'', ''d'', ''e'']
        \<and> RecordNumber sc1 = 1 \<and> FileRecordNumber sc1 = 1
        \<and> (case Scan sc1 of
             None \<Rightarrow> False
           | Some (ok2, sc2) \<Rightarrow> \<not> ok2 \<and> Err sc2 = None \<and> RecordNumber sc2 = 1))"
  by code_simp

text \<open>
  C2. With the sources \<open>"ab"\<close> and \<open>"cd\n"\<close> and no RS the claim expects the records
  \<open>"ab"\<close> (FNR 1) and \<open>"cd"\<close> (FNR 1, NR 2). In the code the end of the first source
  makes \<open>ioutil.ReadAll\<close> return the error \<open>endOfSource\<close>, so the first \<open>Scan\<close> returns
  false and drops \<open>"ab"\<close>; the second returns the record \<open>"cd\n"\<close> with NR 1; and
  \<open>fileRecNumber\<close> is never reset: after a record of an earlier source, the first
  successful \<open>Scan\<close> behind a source boundary has FNR 2.
\<close>

theorem C2_Scan_at_source_boundary:
  "(case Scan (SetSource (Multi [stringSource ''f1'' ''ab'', stringSource ''f2'' ''cd\<newline>''])
                newScanner) of
      None \<Rightarrow> False
    | Some (ok1, sc1) \<Rightarrow>
        \<not> ok1 \<and> Err sc1 = None \<and> rec sc1 = [] \<and> RecordNumber sc1 = 0
        \<and> (case Scan sc1 of
             None \<Rightarrow> False
           | Some (ok2, sc2) \<Rightarrow>
               ok2 \<and> rec sc2 = ''cd\<newline>'' \<and> RecordNumber sc2 = 1
               \<and> FileRecordNumber sc2 = 1))
   \<and> (case Scan (SetSource (Host (stringSource ''f0'' ''x\<newline>'')) newScanner) of
        None \<Rightarrow> False
      | Some (ok0, sc0) \<Rightarrow>
          ok0 \<and> FileRecordNumber sc0 = 1
          \<and> (case Scan (SetSource (Multi [stringSource ''f1'' ''ab'',
                                         stringSource ''f2'' ''cd\<newline>'']) sc0) of
               None \<Rightarrow> False
             | Some (ok1, sc1) \<Rightarrow>
                 \<not> ok1
                 \<and> (case Scan sc1 of
                      None \<Rightarrow> False
                    | Some (ok2, sc2) \<Rightarrow>
                        ok2 \<and> RecordNumber sc2 = 1 \<and> FileRecordNumber sc2 = 2)))"
  by code_simp

text \<open>
  C3. A source whose first read brings \<open>"ab"\<close> with the error \<open>boom\<close> and whose next read
  brings \<open>"cd"\<close>: \<open>Scan\<close> returns false, but the code does not store the error, so
  \<open>Err()\<close> is nil, and the next \<open>Scan\<close> returns true and advances the counters.
\<close>

theorem C3_Scan_read_error_not_sticky:
  "(case Scan (SetSource (Host \<lparr>hname = ''in'',
                                script = [(''ab'', Some (errorsNew ''boom'')), (''cd'', None)]\<rparr>)
                newScanner) of
      None \<Rightarrow> False
    | Some (ok1, sc1) \<Rightarrow>
        \<not> ok1 \<and> Err sc1 = None \<and> RecordNumber sc1 = 0
        \<and> (case Scan sc1 of
             None \<Rightarrow> False
           | Some (ok2, sc2) \<Rightarrow>
               ok2 \<and> rec sc2 = ''cd'' \<and> RecordNumber sc2 = 1 \<and> FileRecordNumber sc2 = 1))"
  by code_simp

subsection \<open>ReadLine\<close>

text \<open>
  C4. \<open>simpleLineReader.ReadLine\<close> cuts the last byte off every non-empty line, whether
  it is the newline or not. A line that ends in \<open>'\n'\<close> loses the newline, and the empty
  input gives an empty line with \<open>io.EOF\<close>, as the claim says; but on the input \<open>"ab"\<close>,
  where \<open>io.EOF\<close> comes with the pending bytes \<open>"ab"\<close>, the call returns \<open>"a"\<close> with
  \<open>io.EOF\<close>: the pending bytes are not returned unaltered.
\<close>

theorem C4_simple_ReadLine_cuts_last_byte:
  "(case srReadLine (newSimpleLineReader (Host (stringSource ''in'' ''ab''))) of
      None \<Rightarrow> False
    | Some (l, e, r) \<Rightarrow> l = ''a'' \<and> e = Some EOF)
   \<and> (case srReadLine (newSimpleLineReader (Host (stringSource ''in'' ''ab\<newline>cd''))) of
        None \<Rightarrow> False
      | Some (l, e, r) \<Rightarrow> l = ''ab'' \<and> e = None)
   \<and> (case srReadLine (newSimpleLineReader (Host (stringSource ''in'' ''''))) of
        None \<Rightarrow> False
      | Some (l, e, r) \<Rightarrow> l = [] \<and> e = Some EOF)"
  by code_simp

text \<open>
  C5. The comment on \<open>lineReader\<close> promises a non-empty slice if and only if the error
  is nil. Neither implementation keeps it: \<open>simpleLineReader.ReadLine\<close> returns an empty
  line with a nil error on the input \<open>"\n"\<close> and the non-empty line \<open>"a"\<close> with \<open>io.EOF\<close>
  on the input \<open>"ab"\<close>; \<open>rxLineReader.ReadLine\<close> with RS \<open>"##"\<close> returns an empty line
  with a nil error on the input \<open>"##x"\<close>.
\<close>

theorem C5_ReadLine_empty_line_nil_error:
  "(case srReadLine (newSimpleLineReader (Host (stringSource ''in'' ''\<newline>''))) of
      None \<Rightarrow> False
    | Some (l, e, r) \<Rightarrow> l = [] \<and> e = None)
   \<and> (case srReadLine (newSimpleLineReader (Host (stringSource ''in'' ''ab''))) of
        None \<Rightarrow> False
      | Some (l, e, r) \<Rightarrow> l = ''a'' \<and> e = Some EOF)
   \<and> (case rrReadLine 4 (newRxLineReader (Host (stringSource ''in'' ''##x''))
                           (literalRx ''##'')) of
        None \<Rightarrow> False
      | Some (l, e, r) \<Rightarrow> l = [] \<and> e = None)"
  by code_simp

subsection \<open>rxLineReader.ReadLine\<close>








subsection \<open>splitRecord\<close>

text \<open>
  C7, as the code has it. With a field-separator regexp set, \<open>splitRecord\<close> stores the
  record and takes the pieces \<open>Split\<close> cuts it into at the matches of the regexp; it
  drops the first piece if that is empty and then the last piece if that is empty, and
  keeps every other piece, the empty ones included. So the record \<open>",,a"\<close> with FS \<open>","\<close>,
  which \<open>Split\<close> cuts into \<open>["", "", "a"]\<close>, has the fields \<open>["", "a"]\<close> and
  \<open>FieldCount() == 2\<close>; the record \<open>"a,,b"\<close> keeps its empty field in the middle.
\<close>

theorem C7_splitRecord_regex:
  "(fieldsRx sc = Some fs \<longrightarrow>
      rec (splitRecord r sc) = r
      \<and> (\<exists>pre suf.
            Split fs r = pre @ fields' (splitRecord r sc) @ suf
            \<and> (pre = [] \<or> pre = [[]]) \<and> (suf = [] \<or> suf = [[]])
            \<and> (pre = [[]] \<longleftrightarrow> Split fs r \<noteq> [] \<and> hd (Split fs r) = [])
            \<and> (suf = [[]] \<longleftrightarrow> fields' (splitRecord r sc) @ suf \<noteq> []
                              \<and> last (fields' (splitRecord r sc) @ suf) = [])))
   \<and> Split (literalRx '','') '',,a'' = [[], [], ''a'']
   \<and> fields' (splitRecord '',,a'' (newScanner\<lparr>fieldsRx := Some (literalRx '','')\<rparr>))
       = [[], ''a'']
   \<and> FieldCount (splitRecord '',,a'' (newScanner\<lparr>fieldsRx := Some (literalRx '','')\<rparr>)) = 2
   \<and> fields' (splitRecord ''a,,b'' (newScanner\<lparr>fieldsRx := Some (literalRx '','')\<rparr>))
       = [''a'', [], ''b'']"
proof (intro impI conjI)
  assume fs: "fieldsRx sc = Some fs"
  show "rec (splitRecord r sc) = r"
    using fs by (simp add: splitRecord_def Let_def)
  define f0 where "f0 = Split fs r"
  define f1 where "f1 = (if 0 < length f0 \<and> hd f0 = [] then tl f0 else f0)"
  define f2 where "f2 = (if 0 < length f1 \<and> last f1 = [] then butlast f1 else f1)"
  have fl: "fields' (splitRecord r sc) = f2"
    using fs by (simp add: splitRecord_def Let_def f0_def f1_def f2_def)
  define pre :: "string list" where "pre = (if 0 < length f0 \<and> hd f0 = [] then [[]] else [])"
  define suf :: "string list" where "suf = (if 0 < length f1 \<and> last f1 = [] then [[]] else [])"
  have a: "f0 = pre @ f1"
    by (cases f0) (auto simp: pre_def f1_def)
  have b: "f1 = f2 @ suf"
    by (auto simp: suf_def f2_def) (metis append_butlast_last_id)
  have "Split fs r = pre @ fields' (splitRecord r sc) @ suf
            \<and> (pre = [] \<or> pre = [[]]) \<and> (suf = [] \<or> suf = [[]])
            \<and> (pre = [[]] \<longleftrightarrow> Split fs r \<noteq> [] \<and> hd (Split fs r) = [])
            \<and> (suf = [[]] \<longleftrightarrow> fields' (splitRecord r sc) @ suf \<noteq> []
                              \<and> last (fields' (splitRecord r sc) @ suf) = [])"
    unfolding fl f0_def [symmetric] b [symmetric]
    using a by (auto simp: pre_def suf_def)
  then show "\<exists>pre suf.
            Split fs r = pre @ fields' (splitRecord r sc) @ suf
            \<and> (pre = [] \<or> pre = [[]]) \<and> (suf = [] \<or> suf = [[]])
            \<and> (pre = [[]] \<longleftrightarrow> Split fs r \<noteq> [] \<and> hd (Split fs r) = [])
            \<and> (suf = [[]] \<longleftrightarrow> fields' (splitRecord r sc) @ suf \<noteq> []
                              \<and> last (fields' (splitRecord r sc) @ suf) = [])"
    by blast
next
  show "Split (literalRx '','') '',,a'' = [[], [], ''a'']"
    by code_simp
next
  show "fields' (splitRecord '',,a'' (newScanner\<lparr>fieldsRx := Some (literalRx '','')\<rparr>))
      = [[], ''a'']"
    by code_simp
next
  show "FieldCount (splitRecord '',,a'' (newScanner\<lparr>fieldsRx := Some (literalRx '','')\<rparr>)) = 2"
    by code_simp
next
  show "fields' (splitRecord ''a,,b'' (newScanner\<lparr>fieldsRx := Some (literalRx '','')\<rparr>))
      = [''a'', [], ''b'']"
    by code_simp
qed

theorem C7_splitRecord_regex_witness:
  "fieldsRx (newScanner\<lparr>fieldsRx := Some (literalRx '','')\<rparr>) = Some (literalRx '','')
   \<and> rec (splitRecord '',,a'' (newScanner\<lparr>fieldsRx := Some (literalRx '','')\<rparr>)) = '',,a''
   \<and> (\<exists>pre suf.
         Split (literalRx '','') '',,a''
           = pre @ fields' (splitRecord '',,a'' (newScanner\<lparr>fieldsRx := Some (literalRx '','')\<rparr>))
               @ suf
         \<and> pre = [[]] \<and> suf = [])"
proof -
  have h: "fieldsRx (newScanner\<lparr>fieldsRx := Some (literalRx '','')\<rparr>) = Some (literalRx '','')"
    by simp
  have s: "Split (literalRx '','') '',,a'' = [[], [], ''a'']"
    by code_simp
  have f: "fields' (splitRecord '',,a'' (newScanner\<lparr>fieldsRx := Some (literalRx '','')\<rparr>))
      = [[], ''a'']"
    by code_simp
  show ?thesis
    using h C7_splitRecord_regex [of "newScanner\<lparr>fieldsRx := Some (literalRx '','')\<rparr>"
        "literalRx '',''" "'',,a''"]
    by (auto simp: s f)
qed

text \<open>
  The example of the claim C7 as it is written fails: the fields of \<open>",,a"\<close> are not
  \<open>["", "", "a"]\<close> and their number is not 3, because the leading empty piece is
  dropped.
\<close>

theorem C7_splitRecord_example_counterexample:
  "\<not> (fields' (splitRecord '',,a'' (newScanner\<lparr>fieldsRx := Some (literalRx '','')\<rparr>))
        = [[], [], ''a'']
      \<and> FieldCount (splitRecord '',,a'' (newScanner\<lparr>fieldsRx := Some (literalRx '','')\<rparr>)) = 3)"
  by code_simp

subsection \<open>Field\<close>

text \<open>
  C8, as the code has it: \<open>Field\<close> first checks the sticky error. While no sticky error
  is set, \<open>Field(0)\<close> is the whole record, \<open>Field(i)\<close> for \<open>1 <= i <= FieldCount()\<close> is
  the \<open>i\<close>-th field, \<open>Field(i)\<close> for \<open>i > FieldCount()\<close> is the empty string, and
  \<open>Field(i)\<close> for \<open>i < 0\<close> panics.
\<close>

theorem C8_Field_without_error:
  "err sc = None \<Longrightarrow>
     Field sc 0 = Returns (rec sc)
     \<and> (1 \<le> i \<and> i \<le> FieldCount sc \<longrightarrow> Field sc i = Returns (fields' sc ! nat (i - 1)))
     \<and> (FieldCount sc < i \<longrightarrow> Field sc i = Returns [])
     \<and> (i < 0 \<longrightarrow> Field sc i = Panics ''negative field index'')"
  by (auto simp: Field_def FieldCount_def)

theorem C8_Field_without_error_witness:
  "err (newScanner\<lparr>rec := ''a b'', fields' := [''a'', ''b'']\<rparr>) = None
   \<and> Field (newScanner\<lparr>rec := ''a b'', fields' := [''a'', ''b'']\<rparr>) 0 = Returns ''a b''
   \<and> Field (newScanner\<lparr>rec := ''a b'', fields' := [''a'', ''b'']\<rparr>) 2 = Returns ''b''"
proof -
  have h: "err (newScanner\<lparr>rec := ''a b'', fields' := [''a'', ''b'']\<rparr>) = None"
    by (simp add: newScanner_def)
  show ?thesis
    using h C8_Field_without_error [OF h, of 2]
    by (simp add: newScanner_def FieldCount_def)
qed

text \<open>
  The claim C8 as it is written, for every state of the scanner, fails: after a \<open>Scan\<close>
  on a scanner without a source the sticky error is set, and \<open>Field(-1)\<close> returns the
  empty string instead of panicking.
\<close>

theorem C8_Field_negative_counterexample:
  "(case Scan newScanner of
      None \<Rightarrow> False
    | Some (ok, sc) \<Rightarrow>
        \<not> ok \<and> Err sc = Some (errorsNew ''scan: nil reader'') \<and> Field sc (- 1) = Returns [])"
  by (simp add: Scan_def newScanner_def Err_def Field_def)

subsection \<open>multiSource.Read\<close>

text \<open>
  C9. \<open>multiSource.Read\<close>: when the read of the current entry returns \<open>io.EOF\<close>, the
  entry is popped; if entries remain, the call returns \<open>endOfSource\<close> with the bytes of
  that read untouched (there may be none), the remaining entries are the new list and
  the next read that brings bytes or an error is the read of the next entry; when the
  last entry returns \<open>io.EOF\<close>, or the list is empty, \<open>Read\<close> returns \<open>io.EOF\<close>. \<open>Name\<close>
  is the name of the first remaining entry, or the empty string when none is left.
\<close>

theorem C9_multiSource_Read_Name:
  "(hostRead k s = (d, Some EOF, s') \<longrightarrow> ss \<noteq> [] \<longrightarrow>
      msRead k (s # ss) = Some (d, Some endOfSource, ss) \<and> msName ss = hname (hd ss))
   \<and> (hostRead k s = (d, Some EOF, s') \<longrightarrow> msRead k [s] = Some (d, Some EOF, []))
   \<and> (hostRead k' t = (d', e', t') \<longrightarrow> e' \<noteq> Some EOF \<longrightarrow> (d' \<noteq> [] \<or> e' \<noteq> None) \<longrightarrow>
        msRead k' (t # ts) = Some (d', e', t' # ts))
   \<and> msRead k [] = Some ([], Some EOF, [])
   \<and> msName [] = []
   \<and> msName (s # ss) = hname s"
  by (cases ss) (simp_all add: msName_def)

theorem C9_multiSource_Read_Name_witness:
  "hostRead 4 \<lparr>hname = ''f1'', script = [(''ab'', Some EOF)]\<rparr>
     = (''ab'', Some EOF, \<lparr>hname = ''f1'', script = []\<rparr>)
   \<and> msRead 4 [\<lparr>hname = ''f1'', script = [(''ab'', Some EOF)]\<rparr>, stringSource ''f2'' ''cd'']
       = Some (''ab'', Some endOfSource, [stringSource ''f2'' ''cd''])
   \<and> msName [stringSource ''f2'' ''cd''] = ''f2''
   \<and> msRead 4 [\<lparr>hname = ''f1'', script = [(''ab'', Some EOF)]\<rparr>] = Some (''ab'', Some EOF, [])
   \<and> hostRead 4 (stringSource ''f2'' ''cd'') = (''cd'', None, \<lparr>hname = ''f2'', script = []\<rparr>)
   \<and> msRead 4 [stringSource ''f2'' ''cd''] = Some (''cd'', None, [\<lparr>hname = ''f2'', script = []\<rparr>])"
proof -
  have h1: "hostRead 4 \<lparr>hname = ''f1'', script = [(''ab'', Some EOF)]\<rparr>
      = (''ab'', Some EOF, \<lparr>hname = ''f1'', script = []\<rparr>)"
    by (simp add: hostRead_def)
  have h2: "hostRead 4 (stringSource ''f2'' ''cd'') = (''cd'', None, \<lparr>hname = ''f2'', script = []\<rparr>)"
    by (simp add: hostRead_def stringSource_def)
  have h3: "[stringSource ''f2'' ''cd''] \<noteq> []"
    by simp
  show ?thesis
    using h1 h2 h3
      C9_multiSource_Read_Name [of 4 "\<lparr>hname = ''f1'', script = [(''ab'', Some EOF)]\<rparr>"
        "''ab''" "\<lparr>hname = ''f1'', script = []\<rparr>" "[stringSource ''f2'' ''cd'']"
        4 "stringSource ''f2'' ''cd''" "''cd''" None "\<lparr>hname = ''f2'', script = []\<rparr>" "[]"]
    by (simp add: stringSource_def)
qed

subsection \<open>Field under a sticky error\<close>

text \<open>
  C10. Once the sticky error is set, \<open>Field(i)\<close> returns the empty string for every
  index \<open>i\<close>, the negative ones included: the check of the error comes first.
\<close>

theorem C10_Field_with_error:
  "err sc \<noteq> None \<Longrightarrow> Field sc i = Returns []"
  by (auto simp: Field_def split: option.splits)

theorem C10_Field_with_error_witness:
  "err (newScanner\<lparr>err := Some (errorsNew ''setting FS: bad''), rec := ''a b''\<rparr>) \<noteq> None
   \<and> Field (newScanner\<lparr>err := Some (errorsNew ''setting FS: bad''), rec := ''a b''\<rparr>) (- 1)
       = Returns []"
proof -
  have h: "err (newScanner\<lparr>err := Some (errorsNew ''setting FS: bad''), rec := ''a b''\<rparr>) \<noteq> None"
    by (simp add: newScanner_def)
  show ?thesis
    using h C10_Field_with_error [OF h, of "- 1"] by simp
qed

end
